theory Spec2Isabelle
  imports Main "HOL-Library.AList" "HOL-Library.Multiset" "HOL-Library.Sublist"
    "HOL-Library.List_Lexorder"
begin

section \<open>Python values used by the backend\<close>

text \<open>
  A Python \<open>str\<close> is a sequence of Unicode code points, so it is modelled as a list of
  code point numbers; comparison of two strings is lexicographic by code point, which is
  the order \<open>HOL-Library.List_Lexorder\<close> gives to lists. An ASCII literal of the source
  is written \<open>ascii ''...''\<close>.
\<close>

type_synonym pystr = "nat list"

definition ascii :: "string \<Rightarrow> pystr" where
  "ascii cs = map of_char cs"

text \<open>
  \<open>str.strip()\<close> without arguments removes leading and trailing whitespace, where
  whitespace is what \<open>str.isspace\<close> accepts: the code points below.
\<close>

definition py_isspace :: "nat \<Rightarrow> bool" where
  "py_isspace c =
     ((9 \<le> c \<and> c \<le> 13) \<or> (28 \<le> c \<and> c \<le> 32) \<or> c = 133 \<or> c = 160 \<or> c = 5760 \<or>
      (8192 \<le> c \<and> c \<le> 8202) \<or> c = 8232 \<or> c = 8233 \<or> c = 8239 \<or> c = 8287 \<or>
      c = 12288)"

definition py_strip :: "pystr \<Rightarrow> pystr" where
  "py_strip s = rev (dropWhile py_isspace (rev (dropWhile py_isspace s)))"

text \<open>
  A naive \<open>datetime\<close> is the number of microseconds since \<open>datetime.min\<close>
  (0001-01-01T00:00:00); \<open>datetime.max\<close> is 9999-12-31T23:59:59.999999. A
  \<open>timedelta\<close> is a number of microseconds whose day count has magnitude at most
  999999999. Arithmetic that leaves either range raises \<open>OverflowError\<close>.
\<close>

type_synonym datetime = int

datatype py_error = OverflowError

definition datetime_max :: datetime where
  "datetime_max = 3652059 * 86400000000 - 1"

definition timedelta_days :: "int \<Rightarrow> py_error + int" where
  "timedelta_days d =
     (if \<bar>d\<bar> \<le> 999999999 then Inr (d * 86400000000) else Inl OverflowError)"

definition timedelta_hours :: "int \<Rightarrow> py_error + int" where
  "timedelta_hours h =
     (if \<bar>(h * 3600000000) div 86400000000\<bar> \<le> 999999999 then Inr (h * 3600000000)
      else Inl OverflowError)"

definition datetime_add :: "datetime \<Rightarrow> int \<Rightarrow> py_error + datetime" where
  "datetime_add t d =
     (if 0 \<le> t + d \<and> t + d \<le> datetime_max then Inr (t + d) else Inl OverflowError)"

definition datetime_sub :: "datetime \<Rightarrow> int \<Rightarrow> py_error + datetime" where
  "datetime_sub t d =
     (if 0 \<le> t - d \<and> t - d \<le> datetime_max then Inr (t - d) else Inl OverflowError)"

text \<open>
  \<open>generation_time_seconds\<close> is a Python \<open>float\<close>. The storage only carries the
  value, so the type is left opaque.
\<close>

typedecl pyfloat

section \<open>The in-memory storage (\<open>storage.py\<close>)\<close>

text \<open>
  The three entities are dictionaries with fixed keys in the source; they become records.
  Field names carry a short prefix (ctx, thr, msg) where two entities share a key.
\<close>

record company_context =
  ctx_id :: int
  ctx_name :: pystr
  context_text :: pystr
  description :: "pystr option"
  ctx_created_at :: datetime
  ctx_updated_at :: datetime

record thread =
  thr_id :: int
  thr_subject :: pystr
  company_context_id :: "int option"
  extra_directives :: "pystr list option"
  custom_prompt :: "pystr option"
  thr_created_at :: datetime
  thr_updated_at :: datetime

record message =
  msg_id :: int
  thread_id :: int
  message_type :: pystr
  msg_subject :: pystr
  body :: pystr
  sender_name :: "pystr option"
  sender_position :: "pystr option"
  generation_time_seconds :: "pyfloat option"
  msg_created_at :: datetime

text \<open>
  \<open>InMemoryStorage\<close>: three dictionaries keyed by id and three counters. A Python
  \<open>dict\<close> keeps insertion order and \<open>.values()\<close> iterates in that order, so each
  dictionary is an association list: \<open>d[k] = v\<close> is \<open>AList.update\<close> (an existing key
  keeps its place, a new one goes last), \<open>d.get(k)\<close> is \<open>map_of\<close>, \<open>del d[k]\<close> is
  \<open>AList.delete\<close>.
\<close>

record storage =
  contexts :: "(int \<times> company_context) list"
  threads :: "(int \<times> thread) list"
  messages :: "(int \<times> message) list"
  context_counter :: int
  thread_counter :: int
  message_counter :: int

text \<open>
  Every call of \<open>datetime.now()\<close> is an argument of the model: \<open>create_thread\<close> reads
  the clock twice (\<open>created_at\<close>, \<open>updated_at\<close>), \<open>add_message\<close> twice (the message's
  \<open>created_at\<close>, the thread's \<open>updated_at\<close>).
\<close>

definition get_context :: "storage \<Rightarrow> int \<Rightarrow> company_context option" where
  "get_context s context_id = map_of (contexts s) context_id"

definition delete_context :: "storage \<Rightarrow> int \<Rightarrow> bool \<times> storage" where
  "delete_context s context_id =
     (if context_id \<in> fst ` set (contexts s)
      then (True, s\<lparr>contexts := AList.delete context_id (contexts s)\<rparr>)
      else (False, s))"

definition create_thread ::
  "storage \<Rightarrow> datetime \<Rightarrow> datetime \<Rightarrow> pystr \<Rightarrow> int option \<Rightarrow> pystr list option \<Rightarrow>
     pystr option \<Rightarrow> thread \<times> storage" where
  "create_thread s now1 now2 subject ccid directives prompt =
     (let tid = thread_counter s;
          t = \<lparr>thr_id = tid, thr_subject = subject, company_context_id = ccid,
               extra_directives = directives, custom_prompt = prompt,
               thr_created_at = now1, thr_updated_at = now2\<rparr>
      in (t, s\<lparr>thread_counter := tid + 1, threads := AList.update tid t (threads s)\<rparr>))"

definition get_thread :: "storage \<Rightarrow> int \<Rightarrow> thread option" where
  "get_thread s tid = map_of (threads s) tid"

text \<open>
  \<open>update_thread_directives\<close>: \<open>None\<close> for an argument skips its field; a list is
  stored when it is truthy (non-empty), a prompt is stored stripped when it and its
  stripped form are truthy. The stored dictionary is mutated in place, so the entry keeps
  its position.
\<close>

definition update_thread_directives ::
  "storage \<Rightarrow> datetime \<Rightarrow> int \<Rightarrow> pystr list option \<Rightarrow> pystr option \<Rightarrow>
     thread option \<times> storage" where
  "update_thread_directives s now tid directives prompt =
     (case map_of (threads s) tid of
        None \<Rightarrow> (None, s)
      | Some t \<Rightarrow>
          (let t1 = (case directives of
                       None \<Rightarrow> t
                     | Some ds \<Rightarrow> t\<lparr>extra_directives := (if ds \<noteq> [] then Some ds else None)\<rparr>);
               t2 = (case prompt of
                       None \<Rightarrow> t1
                     | Some p \<Rightarrow>
                         t1\<lparr>custom_prompt :=
                              (if p \<noteq> [] \<and> py_strip p \<noteq> [] then Some (py_strip p) else None)\<rparr>);
               t3 = t2\<lparr>thr_updated_at := now\<rparr>
           in (Some t3, s\<lparr>threads := AList.update tid t3 (threads s)\<rparr>)))"

definition add_message ::
  "storage \<Rightarrow> datetime \<Rightarrow> datetime \<Rightarrow> int \<Rightarrow> pystr \<Rightarrow> pystr \<Rightarrow> pystr \<Rightarrow> pystr option \<Rightarrow>
     pystr option \<Rightarrow> pyfloat option \<Rightarrow> message \<times> storage" where
  "add_message s now1 now2 tid mtype subject btext sname sposition gen_time =
     (let mid = message_counter s;
          m = \<lparr>msg_id = mid, thread_id = tid, message_type = mtype, msg_subject = subject,
               body = btext, sender_name = sname, sender_position = sposition,
               generation_time_seconds = gen_time, msg_created_at = now1\<rparr>;
          s1 = s\<lparr>message_counter := mid + 1, messages := AList.update mid m (messages s)\<rparr>
      in (case map_of (threads s1) tid of
            None \<Rightarrow> (m, s1)
          | Some t \<Rightarrow>
              (m, s1\<lparr>threads := AList.update tid (t\<lparr>thr_updated_at := now2\<rparr>) (threads s1)\<rparr>)))"

text \<open>
  \<open>sorted(..., key=...)\<close> is a stable ascending sort, as \<open>sort_key\<close> is.
\<close>

definition get_thread_messages :: "storage \<Rightarrow> int \<Rightarrow> message list" where
  "get_thread_messages s tid =
     sort_key msg_created_at (filter (\<lambda>m. thread_id m = tid) (map snd (messages s)))"

definition get_messages_in_period :: "storage \<Rightarrow> datetime \<Rightarrow> datetime \<Rightarrow> message list" where
  "get_messages_in_period s start_date end_date =
     filter (\<lambda>m. start_date \<le> msg_created_at m \<and> msg_created_at m \<le> end_date)
       (map snd (messages s))"

definition get_threads_in_period :: "storage \<Rightarrow> datetime \<Rightarrow> datetime \<Rightarrow> thread list" where
  "get_threads_in_period s start_date end_date =
     filter (\<lambda>t. start_date \<le> thr_created_at t \<and> thr_created_at t \<le> end_date)
       (map snd (threads s))"

section \<open>The analytics routes (\<open>api/analytics_routes.py\<close>)\<close>

text \<open>
  Every route reads the clock once (\<open>end_date\<close>) and computes
  \<open>start_date = end_date - timedelta(days=days)\<close>, which raises \<open>OverflowError\<close> for a
  window that is too large; the exception leaves the route, so a route returns
  \<open>py_error + result\<close>. \<open>KeyError\<close> is what a dictionary subscript raises on a missing
  key.
\<close>

datatype route_error = Overflow py_error | KeyError

definition period_start :: "datetime \<Rightarrow> int \<Rightarrow> route_error + datetime" where
  "period_start end_date days =
     (case timedelta_days days of
        Inl e \<Rightarrow> Inl (Overflow e)
      | Inr d \<Rightarrow> (case datetime_sub end_date d of Inl e \<Rightarrow> Inl (Overflow e) | Inr st \<Rightarrow> Inr st))"

text \<open>
  Two routes count with \<open>d[k] = d.get(k, 0) + 1\<close>.
\<close>

definition dict_incr :: "'k \<Rightarrow> ('k \<times> int) list \<Rightarrow> ('k \<times> int) list" where
  "dict_incr k d = AList.update k ((case map_of d k of None \<Rightarrow> 0 | Some n \<Rightarrow> n) + 1) d"

subsection \<open>\<open>get_overview\<close>\<close>

text \<open>
  The counting fields of the overview. \<open>avg_response_time_seconds\<close> is computed with
  floating-point \<open>sum\<close>, division and \<open>round\<close> and is not part of this record.
\<close>

record overview =
  ov_period_days :: int
  total_threads :: int
  total_messages :: int
  incoming_messages :: int
  outgoing_messages :: int
  threads_with_directives :: int

definition truthy_directives :: "thread \<Rightarrow> bool" where
  "truthy_directives t =
     (case extra_directives t of None \<Rightarrow> False | Some ds \<Rightarrow> ds \<noteq> [])"

definition get_overview :: "storage \<Rightarrow> datetime \<Rightarrow> int \<Rightarrow> route_error + overview" where
  "get_overview s now days =
     (case period_start now days of
        Inl e \<Rightarrow> Inl e
      | Inr start_date \<Rightarrow>
          (let ts = get_threads_in_period s start_date now;
               ms = get_messages_in_period s start_date now
           in Inr \<lparr>ov_period_days = days,
                   total_threads = int (length ts),
                   total_messages = int (length ms),
                   incoming_messages =
                     int (length (filter (\<lambda>m. message_type m = ascii ''incoming'') ms)),
                   outgoing_messages =
                     int (length (filter (\<lambda>m. message_type m = ascii ''outgoing'') ms)),
                   threads_with_directives = int (length (filter truthy_directives ts))\<rparr>))"

subsection \<open>\<open>get_threads_by_context\<close>\<close>

record context_bucket =
  bucket_name :: pystr
  bucket_count :: int

record threads_by_context =
  tbc_data :: "context_bucket list"
  tbc_period_days :: int

text \<open>The label of the catch-all bucket, a Cyrillic literal of the source, by code point.\<close>

definition no_context_label :: pystr where
  "no_context_label =
     [1041, 1077, 1079, 32, 1082, 1086, 1085, 1090, 1077, 1082, 1089, 1090, 1072]"

text \<open>
  One pass of the loop over the threads: the accumulator is \<open>by_context\<close> (a dictionary
  from context name to count) and \<open>threads_without_context\<close>. \<open>if context_id:\<close> is
  false for \<open>None\<close> and for the id \<open>0\<close>; \<open>if context:\<close> is false when the lookup gives
  \<open>None\<close>, and then nothing is counted.
\<close>

definition count_thread ::
  "storage \<Rightarrow> thread \<Rightarrow> (pystr \<times> int) list \<times> int \<Rightarrow> (pystr \<times> int) list \<times> int" where
  "count_thread s t acc =
     (case company_context_id t of
        None \<Rightarrow> (fst acc, snd acc + 1)
      | Some cid \<Rightarrow>
          if cid \<noteq> 0 then
            (case get_context s cid of
               None \<Rightarrow> acc
             | Some c \<Rightarrow>
                 (dict_incr (ctx_name c) (fst acc), snd acc))
          else (fst acc, snd acc + 1))"

text \<open>
  For the statements below: the name a thread is counted under, when its context id is
  truthy and resolves.
\<close>

definition resolved_name :: "storage \<Rightarrow> thread \<Rightarrow> pystr option" where
  "resolved_name s t =
     (case company_context_id t of
        None \<Rightarrow> None
      | Some cid \<Rightarrow> if cid \<noteq> 0 then map_option ctx_name (get_context s cid) else None)"

definition get_threads_by_context ::
  "storage \<Rightarrow> datetime \<Rightarrow> int \<Rightarrow> route_error + threads_by_context" where
  "get_threads_by_context s now days =
     (case period_start now days of
        Inl e \<Rightarrow> Inl e
      | Inr start_date \<Rightarrow>
          (let acc = fold (count_thread s) (get_threads_in_period s start_date now) ([], 0);
               data = map (\<lambda>(n, c). \<lparr>bucket_name = n, bucket_count = c\<rparr>) (fst acc)
           in Inr \<lparr>tbc_data =
                     (if 0 < snd acc
                      then data @ [\<lparr>bucket_name = no_context_label, bucket_count = snd acc\<rparr>]
                      else data),
                   tbc_period_days = days\<rparr>))"

subsection \<open>\<open>get_threads_growth\<close>\<close>

record growth_entry =
  g_date :: pystr
  daily :: int
  cumulative :: int

record threads_growth =
  tg_data :: "growth_entry list"
  tg_period_days :: int

text \<open>
  \<open>created_at.date().isoformat()\<close>, the \<open>YYYY-MM-DD\<close> string of a timestamp, is the
  argument \<open>date_iso\<close> of the model; the route only uses the strings as dictionary keys
  and sorts them.
\<close>

definition count_date :: "(datetime \<Rightarrow> pystr) \<Rightarrow> thread \<Rightarrow> (pystr \<times> int) list \<Rightarrow> (pystr \<times> int) list" where
  "count_date date_iso t by_date =
     dict_incr (date_iso (thr_created_at t)) by_date"

fun growth_loop ::
  "(pystr \<times> int) list \<Rightarrow> pystr list \<Rightarrow> int \<Rightarrow> growth_entry list \<Rightarrow>
     route_error + growth_entry list" where
  "growth_loop by_date [] cum data = Inr data"
| "growth_loop by_date (d # ds) cum data =
     (case map_of by_date d of
        None \<Rightarrow> Inl KeyError
      | Some c \<Rightarrow>
          growth_loop by_date ds (cum + c)
            (data @ [\<lparr>g_date = d, daily = c, cumulative = cum + c\<rparr>]))"

definition get_threads_growth ::
  "(datetime \<Rightarrow> pystr) \<Rightarrow> storage \<Rightarrow> datetime \<Rightarrow> int \<Rightarrow> route_error + threads_growth" where
  "get_threads_growth date_iso s now days =
     (case period_start now days of
        Inl e \<Rightarrow> Inl e
      | Inr start_date \<Rightarrow>
          (let by_date = fold (count_date date_iso) (get_threads_in_period s start_date now) []
           in case growth_loop by_date (sort (map fst by_date)) 0 [] of
                Inl e \<Rightarrow> Inl e
              | Inr data \<Rightarrow> Inr \<lparr>tg_data = data, tg_period_days = days\<rparr>))"

subsection \<open>\<open>get_top_threads\<close>\<close>

record top_row =
  row_id :: int
  row_subject :: pystr
  message_count :: int
  row_created_at :: pystr
  row_updated_at :: pystr

record top_threads =
  top_data :: "top_row list"
  top_limit :: int
  top_period_days :: int

text \<open>
  \<open>sorted(xs, key=f, reverse=True)\<close> reverses the list, sorts it stably in ascending
  order and reverses the result. \<open>xs[:n]\<close> stops at \<open>n\<close>, counted from the end of the
  list when \<open>n\<close> is negative. \<open>datetime.isoformat()\<close> is the argument \<open>isoformat\<close>.
\<close>

definition sorted_reverse :: "('a \<Rightarrow> int) \<Rightarrow> 'a list \<Rightarrow> 'a list" where
  "sorted_reverse f xs = rev (sort_key f (rev xs))"

definition slice_to :: "int \<Rightarrow> 'a list \<Rightarrow> 'a list" where
  "slice_to n xs = take (nat (if n < 0 then int (length xs) + n else n)) xs"

definition thread_row :: "(datetime \<Rightarrow> pystr) \<Rightarrow> storage \<Rightarrow> thread \<Rightarrow> top_row" where
  "thread_row isoformat s t =
     \<lparr>row_id = thr_id t, row_subject = thr_subject t,
      message_count = int (length (get_thread_messages s (thr_id t))),
      row_created_at = isoformat (thr_created_at t), row_updated_at = isoformat (thr_updated_at t)\<rparr>"

definition get_top_threads ::
  "(datetime \<Rightarrow> pystr) \<Rightarrow> storage \<Rightarrow> datetime \<Rightarrow> int \<Rightarrow> int \<Rightarrow> route_error + top_threads" where
  "get_top_threads isoformat s now limit days =
     (case period_start now days of
        Inl e \<Rightarrow> Inl e
      | Inr start_date \<Rightarrow>
          (let thread_data = map (thread_row isoformat s) (get_threads_in_period s start_date now)
           in Inr \<lparr>top_data = slice_to limit (sorted_reverse message_count thread_data),
                   top_limit = limit, top_period_days = days\<rparr>))"

section \<open>The response cache (\<open>services/cache_service.py\<close>)\<close>

text \<open>
  \<open>_cache\<close> maps a key to the pair of the value and its expiry. \<open>_generate_key\<close>
  serialises the arguments with \<open>json.dumps\<close> and hashes the text with SHA-256; the
  argument \<open>key_hash\<close> of the model is that digest as a hexadecimal string, \<open>None\<close> when
  the serialisation raises.
\<close>

record 'v cache_service =
  enabled :: bool
  cache :: "(pystr \<times> ('v \<times> datetime)) list"
  ttl_analysis :: int
  ttl_generation :: int

definition generate_key :: "('a \<Rightarrow> pystr option) \<Rightarrow> pystr \<Rightarrow> 'a \<Rightarrow> pystr option" where
  "generate_key key_hash namespace args =
     (case key_hash args of
        None \<Rightarrow> None
      | Some h \<Rightarrow> Some (ascii ''bizmail:'' @ namespace @ ascii '':'' @ h))"

text \<open>
  \<open>get\<close> and \<open>set\<close> run their body in \<open>try\<close> and catch every \<open>Exception\<close>. The
  body ends with a \<open>print\<close> of a log line (\<open>HIT\<close>, \<open>MISS\<close> or \<open>SET\<close>) and the
  handler prints an error line before it returns. \<open>print\<close> writes to \<open>sys.stdout\<close>
  and raises when the stream refuses the text (an encoding without a character of the
  namespace, a closed stream). As with the clock, what the environment does is an
  argument of the model: \<open>log_ok\<close> says that the \<open>print\<close> of the body returns,
  \<open>err_ok\<close> that the \<open>print\<close> of the handler returns. At most one of each runs in a
  call. An exception of the body reaches the handler; an exception of the handler's
  \<open>print\<close> leaves the method, which is the result \<open>Raises\<close>.
\<close>

datatype 'r call = Returns 'r | Raises

definition except_handler :: "bool \<Rightarrow> 'r \<Rightarrow> 'r call" where
  "except_handler err_ok r = (if err_ok then Returns r else Raises)"

definition cache_get ::
  "('a \<Rightarrow> pystr option) \<Rightarrow> datetime \<Rightarrow> bool \<Rightarrow> bool \<Rightarrow> 'v cache_service \<Rightarrow> pystr \<Rightarrow> 'a \<Rightarrow>
     'v option call \<times> 'v cache_service" where
  "cache_get key_hash now log_ok err_ok c namespace args =
     (if \<not> enabled c then (Returns None, c)
      else
        (case generate_key key_hash namespace args of
           None \<Rightarrow> (except_handler err_ok None, c)
         | Some key \<Rightarrow>
             (case map_of (cache c) key of
                None \<Rightarrow>
                  if log_ok then (Returns None, c) else (except_handler err_ok None, c)
              | Some (v, expiry) \<Rightarrow>
                  if now < expiry then
                    (if log_ok then (Returns (Some v), c) else (except_handler err_ok None, c))
                  else
                    (if log_ok then Returns None else except_handler err_ok None,
                     c\<lparr>cache := AList.delete key (cache c)\<rparr>))))"

definition cache_set ::
  "('a \<Rightarrow> pystr option) \<Rightarrow> datetime \<Rightarrow> bool \<Rightarrow> bool \<Rightarrow> 'v cache_service \<Rightarrow> pystr \<Rightarrow> 'v \<Rightarrow>
     int \<Rightarrow> 'a \<Rightarrow> bool call \<times> 'v cache_service" where
  "cache_set key_hash now log_ok err_ok c namespace v ttl_hours args =
     (if \<not> enabled c then (Returns False, c)
      else
        (case generate_key key_hash namespace args of
           None \<Rightarrow> (except_handler err_ok False, c)
         | Some key \<Rightarrow>
             (case timedelta_hours ttl_hours of
                Inl e \<Rightarrow> (except_handler err_ok False, c)
              | Inr d \<Rightarrow>
                  (case datetime_add now d of
                     Inl e \<Rightarrow> (except_handler err_ok False, c)
                   | Inr expiry \<Rightarrow>
                       (if log_ok then Returns True else except_handler err_ok False,
                        c\<lparr>cache := AList.update key (v, expiry) (cache c)\<rparr>)))))"

section \<open>Definitions used by the statements and proofs\<close>

text \<open>
  Both counting loops are a fold that increments the entry of a key; \<open>count_keys g\<close> is
  that fold for the key function \<open>g\<close>, where \<open>None\<close> means that the item is skipped.
\<close>

definition count_keys :: "('a \<Rightarrow> 'k option) \<Rightarrow> 'a list \<Rightarrow> ('k \<times> int) list \<Rightarrow> ('k \<times> int) list" where
  "count_keys g ts d = fold (\<lambda>t m. case g t of None \<Rightarrow> m | Some k \<Rightarrow> dict_incr k m) ts d"

text \<open>
  The invariant of the loop of \<open>get_threads_growth\<close>: \<open>cum\<close> is the sum of the daily
  counts emitted so far, every entry carries the sum of the daily counts up to and
  including itself, and the cumulative values emitted so far ascend and stay below
  \<open>cum\<close>.
\<close>

definition running_totals :: "growth_entry list \<Rightarrow> int \<Rightarrow> bool" where
  "running_totals xs cum =
     (cum = sum_list (map daily xs) \<and>
      (\<forall>i<length xs. cumulative (xs ! i) = sum_list (map daily (take (Suc i) xs))) \<and>
      sorted (map cumulative xs) \<and> (\<forall>e\<in>set xs. cumulative e \<le> cum))"

subsection \<open>Example data\<close>

text \<open>
  A storage on 2026-11-03 12:00 with one context, three threads (the first with context
  1, the second without a context, the third with the id of a context that was deleted)
  and three messages. \<open>day_key\<close> stands for the ISO date in the examples: it is the
  day number of the timestamp as a one-element string.
\<close>

definition demo_now :: datetime where
  "demo_now = 63929304000000000"

definition demo_thread1 :: thread where
  "demo_thread1 =
     \<lparr>thr_id = 1, thr_subject = ascii ''Loan'', company_context_id = Some 1,
      extra_directives = Some [ascii ''Formal''], custom_prompt = Some (ascii ''VIP''),
      thr_created_at = 63929120400000000, thr_updated_at = 63929120400000000\<rparr>"

definition demo_thread2 :: thread where
  "demo_thread2 =
     \<lparr>thr_id = 2, thr_subject = ascii ''Card'', company_context_id = None,
      extra_directives = None, custom_prompt = None,
      thr_created_at = 63929206800000000, thr_updated_at = 63929207700000000\<rparr>"

definition demo_thread3 :: thread where
  "demo_thread3 =
     \<lparr>thr_id = 3, thr_subject = ascii ''Statement'', company_context_id = Some 5,
      extra_directives = None, custom_prompt = None,
      thr_created_at = 63929210400000000, thr_updated_at = 63929210400000000\<rparr>"

definition demo_message :: "int \<Rightarrow> int \<Rightarrow> string \<Rightarrow> datetime \<Rightarrow> message" where
  "demo_message mid tid mtype t =
     \<lparr>msg_id = mid, thread_id = tid, message_type = ascii mtype, msg_subject = ascii ''Re'',
      body = ascii ''Text'', sender_name = None, sender_position = None,
      generation_time_seconds = None, msg_created_at = t\<rparr>"

definition demo_storage :: storage where
  "demo_storage =
     \<lparr>contexts =
        [(1, \<lparr>ctx_id = 1, ctx_name = ascii ''Bank'', context_text = ascii ''Retail bank'',
              description = None, ctx_created_at = 63926712000000000,
              ctx_updated_at = 63926712000000000\<rparr>)],
      threads = [(1, demo_thread1), (2, demo_thread2), (3, demo_thread3)],
      messages =
        [(1, demo_message 1 1 ''incoming'' 63929120400000000),
         (2, demo_message 2 2 ''incoming'' 63929206800000000),
         (3, demo_message 3 2 ''outgoing'' 63929207700000000)],
      context_counter = 6, thread_counter = 4, message_counter = 4\<rparr>"

definition day_key :: "datetime \<Rightarrow> pystr" where
  "day_key t = [nat (t div 86400000000)]"

definition demo_cache :: "pystr cache_service" where
  "demo_cache = \<lparr>enabled = True, cache = [], ttl_analysis = 24, ttl_generation = 12\<rparr>"

section \<open>Helper lemmas\<close>

subsection \<open>Strings and association lists\<close>

lemma py_strip_Nil: "py_strip [] = []"
  by (simp add: py_strip_def)

lemma incoming_not_outgoing: "ascii ''incoming'' \<noteq> ascii ''outgoing''"
  by (simp add: ascii_def)

lemma update_present_keys:
  "map_of al k = Some v \<Longrightarrow> map fst (AList.update k w al) = map fst al"
  by (simp add: update_keys) (metis domI dom_map_of_conv_image_fst)

lemma two_filters_le:
  "length (filter P xs) + length (filter Q xs) \<le> length xs" if "\<And>x. \<not> (P x \<and> Q x)"
  using that by (induction xs) auto

lemma two_filters_eq:
  "(\<And>x. \<not> (P x \<and> Q x)) \<Longrightarrow>
     (length (filter P xs) + length (filter Q xs) = length xs) = (\<forall>x\<in>set xs. P x \<or> Q x)"
proof (induction xs)
  case Nil
  then show ?case by simp
next
  case (Cons a xs)
  have le: "length (filter P xs) + length (filter Q xs) \<le> length xs"
    using Cons.prems by (rule two_filters_le)
  show ?case using Cons le by auto
qed

subsection \<open>Counting with a dictionary\<close>

lemma map_of_dict_incr:
  "map_of (dict_incr k d) j =
     (if j = k then Some ((case map_of d k of None \<Rightarrow> 0 | Some n \<Rightarrow> n) + 1) else map_of d j)"
  by (simp add: dict_incr_def update_conv')

lemma keys_dict_incr: "fst ` set (dict_incr k d) = insert k (fst ` set d)"
  by (simp add: dict_incr_def dom_update)

lemma distinct_dict_incr: "distinct (map fst d) \<Longrightarrow> distinct (map fst (dict_incr k d))"
  by (simp add: dict_incr_def distinct_update)

lemma count_keys_Nil: "count_keys g [] d = d"
  by (simp add: count_keys_def)

lemma count_keys_Cons:
  "count_keys g (t # ts) d = count_keys g ts (case g t of None \<Rightarrow> d | Some k \<Rightarrow> dict_incr k d)"
  by (simp add: count_keys_def)

lemma map_of_count_keys:
  "map_of (count_keys g ts d) k =
     (if filter (\<lambda>t. g t = Some k) ts = [] then map_of d k
      else Some ((case map_of d k of None \<Rightarrow> 0 | Some n \<Rightarrow> n) +
                 int (length (filter (\<lambda>t. g t = Some k) ts))))"
proof (induction ts arbitrary: d)
  case Nil
  show ?case by (simp add: count_keys_Nil)
next
  case (Cons t ts)
  show ?case
  proof (cases "g t")
    case None
    then show ?thesis by (simp add: count_keys_Cons Cons.IH)
  next
    case (Some j)
    then show ?thesis
      by (simp add: count_keys_Cons Cons.IH map_of_dict_incr)
  qed
qed

lemma keys_count_keys:
  "fst ` set (count_keys g ts d) = fst ` set d \<union> {k. \<exists>t\<in>set ts. g t = Some k}"
proof (induction ts arbitrary: d)
  case Nil
  show ?case by (simp add: count_keys_Nil)
next
  case (Cons t ts)
  show ?case
    by (cases "g t") (auto simp: count_keys_Cons Cons.IH keys_dict_incr)
qed

lemma distinct_count_keys:
  "distinct (map fst d) \<Longrightarrow> distinct (map fst (count_keys g ts d))"
proof (induction ts arbitrary: d)
  case Nil
  then show ?case by (simp add: count_keys_Nil)
next
  case (Cons t ts)
  then show ?case
    by (cases "g t") (simp_all add: count_keys_Cons distinct_dict_incr)
qed

lemma count_thread_step:
  "count_thread s t acc =
     ((case resolved_name s t of None \<Rightarrow> fst acc | Some k \<Rightarrow> dict_incr k (fst acc)),
      snd acc +
        (if company_context_id t = None \<or> company_context_id t = Some 0 then 1 else 0))"
  by (cases acc) (auto simp: count_thread_def resolved_name_def split: option.splits)

lemma fold_count_thread:
  "fold (count_thread s) ts acc =
     (count_keys (resolved_name s) ts (fst acc),
      snd acc + int (length (filter (\<lambda>t. company_context_id t = None \<or> company_context_id t = Some 0) ts)))"
proof (induction ts arbitrary: acc)
  case Nil
  show ?case by (simp add: count_keys_Nil)
next
  case (Cons t ts)
  show ?case
    apply (simp only: fold_Cons comp_apply Cons.IH)
    apply (simp add: count_thread_step count_keys_Cons)
    done
qed

lemma fold_count_date:
  "fold (count_date f) ts d = count_keys (\<lambda>t. Some (f (thr_created_at t))) ts d"
proof (induction ts arbitrary: d)
  case Nil
  show ?case by (simp add: count_keys_Nil)
next
  case (Cons t ts)
  show ?case
    apply (simp only: fold_Cons comp_apply Cons.IH)
    apply (simp add: count_date_def count_keys_Cons)
    done
qed

subsection \<open>The loop of threads-growth\<close>

lemma running_totals_Nil: "running_totals [] 0"
  by (simp add: running_totals_def)

lemma running_totals_snoc:
  assumes "running_totals xs cum" and "0 \<le> c"
  shows "running_totals (xs @ [\<lparr>g_date = d, daily = c, cumulative = cum + c\<rparr>]) (cum + c)"
proof -
  let ?e = "\<lparr>g_date = d, daily = c, cumulative = cum + c\<rparr>"
  from assms(1) have cum: "cum = sum_list (map daily xs)"
    and idx: "\<And>i. i < length xs \<Longrightarrow> cumulative (xs ! i) = sum_list (map daily (take (Suc i) xs))"
    and srt: "sorted (map cumulative xs)"
    and bnd: "\<And>e. e \<in> set xs \<Longrightarrow> cumulative e \<le> cum"
    by (auto simp: running_totals_def)
  have a: "cum + c = sum_list (map daily (xs @ [?e]))"
    using cum by simp
  have b: "cumulative ((xs @ [?e]) ! i) = sum_list (map daily (take (Suc i) (xs @ [?e])))"
    if "i < length (xs @ [?e])" for i
  proof (cases "i < length xs")
    case True
    then show ?thesis using idx [OF True] by (simp add: nth_append)
  next
    case False
    with that have "i = length xs" by simp
    then show ?thesis using cum by (simp add: nth_append)
  qed
  have up: "cumulative x \<le> cum + c" if "x \<in> set xs" for x
    using bnd [OF that] assms(2) by linarith
  have c: "sorted (map cumulative (xs @ [?e]))"
    using srt up by (auto simp: sorted_append)
  have d: "\<forall>e\<in>set (xs @ [?e]). cumulative e \<le> cum + c"
    using up by auto
  from a b c d show ?thesis
    unfolding running_totals_def by blast
qed

lemma growth_loop_result:
  assumes "\<And>d. d \<in> set ds \<Longrightarrow> \<exists>c. map_of bd d = Some c \<and> 0 \<le> c"
    and "running_totals xs cum"
  shows "\<exists>ys. growth_loop bd ds cum xs = Inr (xs @ ys) \<and>
           map g_date ys = ds \<and>
           (\<forall>e\<in>set ys. map_of bd (g_date e) = Some (daily e)) \<and>
           running_totals (xs @ ys) (cum + sum_list (map daily ys))"
  using assms
proof (induction ds arbitrary: cum xs)
  case Nil
  then show ?case by simp
next
  case (Cons d ds)
  from Cons.prems(1) [of d] obtain c where c: "map_of bd d = Some c" "0 \<le> c"
    by auto
  let ?e = "\<lparr>g_date = d, daily = c, cumulative = cum + c\<rparr>"
  have rt: "running_totals (xs @ [?e]) (cum + c)"
    using Cons.prems(2) c(2) by (rule running_totals_snoc)
  have rest: "\<And>d'. d' \<in> set ds \<Longrightarrow> \<exists>c. map_of bd d' = Some c \<and> 0 \<le> c"
    using Cons.prems(1) by simp
  from Cons.IH [OF rest rt] obtain ys where
    ys: "growth_loop bd ds (cum + c) (xs @ [?e]) = Inr ((xs @ [?e]) @ ys)"
      "map g_date ys = ds"
      "\<forall>e\<in>set ys. map_of bd (g_date e) = Some (daily e)"
      "running_totals ((xs @ [?e]) @ ys) (cum + c + sum_list (map daily ys))"
    by blast
  have "growth_loop bd (d # ds) cum xs = Inr (xs @ (?e # ys))"
    using c(1) ys(1) by simp
  moreover have "map g_date (?e # ys) = d # ds"
    using ys(2) by simp
  moreover have "\<forall>e\<in>set (?e # ys). map_of bd (g_date e) = Some (daily e)"
    using ys(3) c(1) by simp
  moreover have "running_totals (xs @ (?e # ys)) (cum + sum_list (map daily (?e # ys)))"
    using ys(4) by (simp add: add.assoc)
  ultimately show ?case
    by (intro exI [where x = "?e # ys"] conjI)
qed

subsection \<open>Descending stable sort and slices\<close>

lemma sorted_reverse_desc:
  "sorted (rev (map f (sorted_reverse f xs)))"
  by (simp add: sorted_reverse_def rev_map [symmetric])

lemma sorted_reverse_stable:
  "filter (\<lambda>x. f x = k) (sorted_reverse f xs) = filter (\<lambda>x. f x = k) xs"
  by (simp add: sorted_reverse_def rev_filter [symmetric] sort_key_stable)

lemma mset_sorted_reverse: "mset (sorted_reverse f xs) = mset xs"
  by (simp add: sorted_reverse_def)

lemma length_slice_to_nonneg: "0 \<le> n \<Longrightarrow> int (length (slice_to n xs)) \<le> n"
  by (simp add: slice_to_def)

lemma length_slice_to_neg:
  "n < 0 \<Longrightarrow> length (slice_to n xs) = length xs - nat (- n)"
  by (simp add: slice_to_def)

lemma slice_to_take: "\<exists>m. slice_to n xs = take m xs"
  by (auto simp: slice_to_def)

subsection \<open>The cache\<close>

lemma cache_disabled:
  "\<not> enabled c \<Longrightarrow>
     cache_get key_hash now log_ok err_ok c namespace args = (Returns None, c) \<and>
     cache_set key_hash now log_ok err_ok c namespace v ttl_hours args = (Returns False, c)"
  by (simp add: cache_get_def cache_set_def)

lemma cache_set_True_iff:
  "enabled c \<Longrightarrow>
     (fst (cache_set key_hash now log_ok err_ok c namespace v ttl_hours args) = Returns True) =
       (key_hash args \<noteq> None \<and> \<bar>(ttl_hours * 3600000000) div 86400000000\<bar> \<le> 999999999 \<and>
        0 \<le> now + ttl_hours * 3600000000 \<and> now + ttl_hours * 3600000000 \<le> datetime_max \<and>
        log_ok)"
  by (auto simp: cache_set_def generate_key_def timedelta_hours_def datetime_add_def
        except_handler_def split: option.splits sum.splits if_splits)

lemma cache_set_never_True_wrongly:
  "fst (cache_set key_hash now log_ok err_ok c namespace v ttl_hours args) \<noteq> Returns True \<Longrightarrow>
     fst (cache_set key_hash now log_ok err_ok c namespace v ttl_hours args) =
       (if enabled c then except_handler err_ok False else Returns False)"
  by (auto simp: cache_set_def generate_key_def timedelta_hours_def datetime_add_def
        except_handler_def split: option.splits sum.splits if_splits)

lemma cache_set_store:
  "snd (cache_set key_hash now log_ok err_ok c namespace v ttl_hours args) =
     (case key_hash args of
        None \<Rightarrow> c
      | Some h \<Rightarrow>
          if enabled c \<and> \<bar>(ttl_hours * 3600000000) div 86400000000\<bar> \<le> 999999999 \<and>
             0 \<le> now + ttl_hours * 3600000000 \<and>
             now + ttl_hours * 3600000000 \<le> datetime_max
          then c\<lparr>cache :=
                   AList.update (ascii ''bizmail:'' @ namespace @ ascii '':'' @ h)
                     (v, now + ttl_hours * 3600000000) (cache c)\<rparr>
          else c)"
  by (auto simp: cache_set_def generate_key_def timedelta_hours_def datetime_add_def
        split: option.splits sum.splits if_splits)

lemma cache_set_then_get:
  assumes "enabled c"
    and "fst (cache_set key_hash t0 log0 err0 c namespace v ttl_hours args) = Returns True"
  shows "fst (cache_get key_hash t1 log1 err1
               (snd (cache_set key_hash t0 log0 err0 c namespace v ttl_hours args))
               namespace args) =
         (if log1 then Returns (if t1 < t0 + ttl_hours * 3600000000 then Some v else None)
          else except_handler err1 None)"
  using assms
  by (auto simp: cache_set_def cache_get_def generate_key_def timedelta_hours_def
        datetime_add_def update_conv' except_handler_def
        split: option.splits sum.splits if_splits)

subsection \<open>The example data\<close>

lemmas demo_defs = demo_now_def demo_thread1_def demo_thread2_def demo_thread3_def
  demo_message_def demo_storage_def ascii_def

lemma demo_period30: "period_start demo_now 30 = Inr 63926712000000000"
  by (simp add: period_start_def timedelta_days_def datetime_sub_def datetime_max_def demo_now_def)

lemma demo_period7: "period_start demo_now 7 = Inr 63928699200000000"
  by (simp add: period_start_def timedelta_days_def datetime_sub_def datetime_max_def demo_now_def)

lemma demo_threads30:
  "get_threads_in_period demo_storage 63926712000000000 demo_now =
     [demo_thread1, demo_thread2, demo_thread3]"
  by (simp add: get_threads_in_period_def demo_defs)

section \<open>Claims about the storage\<close>

text \<open>
  C1 (\<open>create_thread\<close> normalises directives and custom prompt). The code stores both
  arguments as they are given: an empty directive list stays an empty list and a prompt
  of three spaces stays three spaces. \<open>update_thread_directives\<close>, called with the same
  two arguments on the new thread, stores neither.
\<close>

theorem create_thread_keeps_raw_arguments:
  "get_thread
     (snd (create_thread demo_storage demo_now demo_now (ascii ''Hello'') None (Some [])
             (Some (ascii ''   ''))))
     4 =
     Some \<lparr>thr_id = 4, thr_subject = ascii ''Hello'', company_context_id = None,
           extra_directives = Some [], custom_prompt = Some [32, 32, 32],
           thr_created_at = demo_now, thr_updated_at = demo_now\<rparr> \<and>
   fst (update_thread_directives
          (snd (create_thread demo_storage demo_now demo_now (ascii ''Hello'') None (Some [])
                  (Some (ascii ''   ''))))
          demo_now 4 (Some []) (Some (ascii ''   ''))) =
     Some \<lparr>thr_id = 4, thr_subject = ascii ''Hello'', company_context_id = None,
           extra_directives = None, custom_prompt = None,
           thr_created_at = demo_now, thr_updated_at = demo_now\<rparr>"
  by (simp add: create_thread_def update_thread_directives_def get_thread_def Let_def
      py_strip_def py_isspace_def demo_defs)

text \<open>
  C8 (\<open>add_message\<close> accepts any thread id). The function has no error result. It
  returns the message built from its arguments with the next id, stores it under that
  id, advances the message counter and touches nothing else but the \<open>updated_at\<close> of
  the thread with the given id, when there is one: every lookup of a thread gives what it
  gave before, except that the referenced thread has \<open>updated_at\<close> set to the second
  clock reading; the order of the threads, the contexts and the other counters stay.
\<close>

theorem add_message_total:
  "fst (add_message s now1 now2 tid mtype subject btext sname sposition gen_time) =
     \<lparr>msg_id = message_counter s, thread_id = tid, message_type = mtype,
      msg_subject = subject, body = btext, sender_name = sname,
      sender_position = sposition, generation_time_seconds = gen_time,
      msg_created_at = now1\<rparr> \<and>
   map_of (messages (snd (add_message s now1 now2 tid mtype subject btext sname sposition
      gen_time))) (message_counter s) =
     Some (fst (add_message s now1 now2 tid mtype subject btext sname sposition gen_time)) \<and>
   message_counter (snd (add_message s now1 now2 tid mtype subject btext sname sposition
      gen_time)) = message_counter s + 1 \<and>
   get_thread (snd (add_message s now1 now2 tid mtype subject btext sname sposition
      gen_time)) k =
     (if k = tid then map_option (\<lambda>t. t\<lparr>thr_updated_at := now2\<rparr>) (get_thread s tid)
      else get_thread s k) \<and>
   map fst (threads (snd (add_message s now1 now2 tid mtype subject btext sname sposition
      gen_time))) = map fst (threads s) \<and>
   contexts (snd (add_message s now1 now2 tid mtype subject btext sname sposition
      gen_time)) = contexts s \<and>
   thread_counter (snd (add_message s now1 now2 tid mtype subject btext sname sposition
      gen_time)) = thread_counter s \<and>
   context_counter (snd (add_message s now1 now2 tid mtype subject btext sname sposition
      gen_time)) = context_counter s"
  by (cases "map_of (threads s) tid")
     (auto simp: add_message_def get_thread_def Let_def update_conv' update_present_keys)

text \<open>
  C9 (\<open>update_thread_directives\<close> with \<open>None\<close> arguments). For an existing thread the
  call returns the updated thread and stores it in the place of the old one. The new
  thread is the old one with at most \<open>extra_directives\<close>, \<open>custom_prompt\<close> and
  \<open>updated_at\<close> changed; \<open>None\<close> for the directives keeps the directives, \<open>None\<close>
  for the prompt keeps the prompt; directives that were set are cleared only by the
  empty list, a prompt that was set only by a string that strips to the empty string.
  No other thread changes and the threads keep their order.
\<close>

theorem update_thread_directives_frame:
  assumes "get_thread s tid = Some t"
  shows "\<exists>t'. update_thread_directives s now tid ds p =
            (Some t', s\<lparr>threads := AList.update tid t' (threads s)\<rparr>) \<and>
          t' = t\<lparr>extra_directives := extra_directives t', custom_prompt := custom_prompt t',
                 thr_updated_at := now\<rparr> \<and>
          (ds = None \<longrightarrow> extra_directives t' = extra_directives t) \<and>
          (p = None \<longrightarrow> custom_prompt t' = custom_prompt t) \<and>
          (extra_directives t \<noteq> None \<and> extra_directives t' = None \<longrightarrow> ds = Some []) \<and>
          (custom_prompt t \<noteq> None \<and> custom_prompt t' = None \<longrightarrow>
             (\<exists>q. p = Some q \<and> py_strip q = [])) \<and>
          get_thread (snd (update_thread_directives s now tid ds p)) tid = Some t' \<and>
          (\<forall>k. k \<noteq> tid \<longrightarrow>
             get_thread (snd (update_thread_directives s now tid ds p)) k = get_thread s k) \<and>
          map fst (threads (snd (update_thread_directives s now tid ds p))) =
            map fst (threads s)"
proof -
  from assms have look: "map_of (threads s) tid = Some t"
    by (simp add: get_thread_def)
  show ?thesis
    using look
    by (cases ds; cases p)
       (auto simp: update_thread_directives_def get_thread_def Let_def update_conv'
          update_present_keys py_strip_Nil)
qed

text \<open>
  Witness: thread 1 of the example storage has directives and a prompt; updating it with
  \<open>None\<close> for the directives and a blank prompt keeps the directives, clears the prompt
  and sets \<open>updated_at\<close>.
\<close>

theorem update_thread_directives_frame_witness:
  "get_thread demo_storage 1 = Some demo_thread1 \<and>
   fst (update_thread_directives demo_storage demo_now 1 None (Some (ascii ''  ''))) =
     Some (demo_thread1\<lparr>custom_prompt := None, thr_updated_at := demo_now\<rparr>)"
proof -
  have h: "get_thread demo_storage 1 = Some demo_thread1"
    by (simp add: get_thread_def demo_storage_def)
  from update_thread_directives_frame [OF h, of demo_now None "Some (ascii ''  '')"]
  obtain t' where
    r: "update_thread_directives demo_storage demo_now 1 None (Some (ascii ''  '')) =
          (Some t', demo_storage\<lparr>threads := AList.update 1 t' (threads demo_storage)\<rparr>)"
    and t': "t' = demo_thread1\<lparr>extra_directives := extra_directives t',
                    custom_prompt := custom_prompt t', thr_updated_at := demo_now\<rparr>"
    and ed: "extra_directives t' = extra_directives demo_thread1"
    by blast
  have "custom_prompt t' = None"
    using r h
    by (auto simp: update_thread_directives_def get_thread_def Let_def py_strip_def
        py_isspace_def ascii_def)
  with t' ed have "t' = demo_thread1\<lparr>custom_prompt := None, thr_updated_at := demo_now\<rparr>"
    by simp
  with r h show ?thesis by simp
qed

text \<open>
  C10 (\<open>get_thread_messages\<close> for any thread id). The function has no error result.
  Its result holds exactly the stored messages whose \<open>thread_id\<close> is the argument, each
  as often as it is stored; it ascends in \<open>created_at\<close>, messages with the same
  \<open>created_at\<close> keep their stored order, and it is empty exactly when no stored message
  has that \<open>thread_id\<close>, which is the case for a thread that does not exist and has no
  orphaned message.
\<close>

theorem get_thread_messages_sorted:
  "mset (get_thread_messages s tid) =
     filter_mset (\<lambda>m. thread_id m = tid) (mset (map snd (messages s))) \<and>
   sorted (map msg_created_at (get_thread_messages s tid)) \<and>
   (\<forall>k. filter (\<lambda>m. msg_created_at m = k) (get_thread_messages s tid) =
          filter (\<lambda>m. msg_created_at m = k)
            (filter (\<lambda>m. thread_id m = tid) (map snd (messages s)))) \<and>
   ((get_thread_messages s tid = []) =
      (filter (\<lambda>m. thread_id m = tid) (map snd (messages s)) = []))"
proof -
  have "length (get_thread_messages s tid) =
      length (filter (\<lambda>m. thread_id m = tid) (map snd (messages s)))"
    by (simp add: get_thread_messages_def)
  then have "(get_thread_messages s tid = []) =
      (filter (\<lambda>m. thread_id m = tid) (map snd (messages s)) = [])"
    by (metis length_0_conv)
  then show ?thesis
    by (simp add: get_thread_messages_def sort_key_stable)
qed

section \<open>Claims about the analytics routes\<close>

text \<open>
  A window \<open>days\<close> is valid when \<open>period_start now days\<close> is a date, that is when
  \<open>now - timedelta(days=days)\<close> does not raise; every route then returns a result.
\<close>

text \<open>
  C7 (\<open>total_messages == incoming_messages + outgoing_messages\<close>), as amended. For a
  valid window the three fields are the number of messages in the period and the numbers
  of those whose \<open>message_type\<close> is \<open>incoming\<close> and \<open>outgoing\<close>. The two counts add
  up to at most the total, and to the total exactly when every message in the period
  has one of the two types: \<open>message_type\<close> is a string that \<open>add_message\<close> stores
  unchecked.
\<close>

theorem overview_counts:
  assumes "period_start now days = Inr start_date"
  shows "\<exists>r. get_overview s now days = Inr r \<and>
     total_messages r = int (length (get_messages_in_period s start_date now)) \<and>
     incoming_messages r =
       int (length (filter (\<lambda>m. message_type m = ascii ''incoming'')
                      (get_messages_in_period s start_date now))) \<and>
     outgoing_messages r =
       int (length (filter (\<lambda>m. message_type m = ascii ''outgoing'')
                      (get_messages_in_period s start_date now))) \<and>
     incoming_messages r + outgoing_messages r \<le> total_messages r \<and>
     ((total_messages r = incoming_messages r + outgoing_messages r) =
        (\<forall>m \<in> set (get_messages_in_period s start_date now).
            message_type m = ascii ''incoming'' \<or> message_type m = ascii ''outgoing''))"
proof -
  let ?ms = "get_messages_in_period s start_date now"
  let ?ts = "get_threads_in_period s start_date now"
  let ?P = "\<lambda>m. message_type m = ascii ''incoming''"
  let ?Q = "\<lambda>m. message_type m = ascii ''outgoing''"
  let ?r = "\<lparr>ov_period_days = days, total_threads = int (length ?ts),
             total_messages = int (length ?ms),
             incoming_messages = int (length (filter ?P ?ms)),
             outgoing_messages = int (length (filter ?Q ?ms)),
             threads_with_directives = int (length (filter truthy_directives ?ts))\<rparr>"
  have dis: "\<And>x. \<not> (?P x \<and> ?Q x)"
    using incoming_not_outgoing by auto
  have le: "length (filter ?P ?ms) + length (filter ?Q ?ms) \<le> length ?ms"
    by (rule two_filters_le [OF dis])
  have eq: "(length (filter ?P ?ms) + length (filter ?Q ?ms) = length ?ms) =
      (\<forall>x\<in>set ?ms. ?P x \<or> ?Q x)"
    by (rule two_filters_eq [OF dis])
  have res: "get_overview s now days = Inr ?r"
    using assms by (simp add: get_overview_def Let_def)
  have "(int (length ?ms) = int (length (filter ?P ?ms)) + int (length (filter ?Q ?ms))) =
      (length (filter ?P ?ms) + length (filter ?Q ?ms) = length ?ms)"
    by linarith
  with le eq res show ?thesis by simp
qed

text \<open>
  Witness: the last seven days of the example storage hold three messages, two incoming
  and one outgoing.
\<close>

theorem overview_counts_witness:
  "period_start demo_now 7 = Inr 63928699200000000 \<and>
   get_overview demo_storage demo_now 7 =
     Inr \<lparr>ov_period_days = 7, total_threads = 3, total_messages = 3, incoming_messages = 2,
          outgoing_messages = 1, threads_with_directives = 1\<rparr>"
proof -
  from overview_counts [OF demo_period7, of demo_storage]
  obtain r where "get_overview demo_storage demo_now 7 = Inr r"
    by blast
  moreover have "get_overview demo_storage demo_now 7 =
     Inr \<lparr>ov_period_days = 7, total_threads = 3, total_messages = 3, incoming_messages = 2,
          outgoing_messages = 1, threads_with_directives = 1\<rparr>"
    apply (simp add: demo_period7 get_overview_def Let_def)
    apply (simp add: get_threads_in_period_def get_messages_in_period_def
        truthy_directives_def demo_defs)
    done
  ultimately show ?thesis
    using demo_period7 by simp
qed

text \<open>
  Counterexample to C7 as stated: after \<open>add_message\<close> has stored a message of type
  \<open>draft\<close> in thread 2 an hour before the request, the overview counts four messages,
  two incoming and one outgoing.
\<close>

theorem overview_counts_counterexample:
  "get_overview
     (snd (add_message demo_storage 63929300400000000 63929300400000000 2 (ascii ''draft'')
             (ascii ''Re'') (ascii ''Text'') None None None))
     demo_now 7 =
     Inr \<lparr>ov_period_days = 7, total_threads = 3, total_messages = 4, incoming_messages = 2,
          outgoing_messages = 1, threads_with_directives = 1\<rparr> \<and>
   (4 :: int) \<noteq> 2 + 1"
  apply (simp add: demo_period7 get_overview_def Let_def)
  apply (simp add: add_message_def get_threads_in_period_def get_messages_in_period_def
      truthy_directives_def Let_def demo_defs)
  done

text \<open>
  C2 (the catch-all bucket of threads-by-context), as amended. For a valid window the
  data are the named buckets followed by the catch-all bucket, which is there exactly
  when its count is positive. The catch-all counts the threads of the period whose
  \<open>company_context_id\<close> is \<open>None\<close> or \<open>0\<close>. The named buckets have distinct names, one
  for each context name that a thread of the period resolves to, each with the number of
  threads resolving to that name. A thread whose non-zero context id does not resolve is
  in neither count.
\<close>

theorem threads_by_context_buckets:
  assumes "period_start now days = Inr start_date"
  shows "\<exists>r named.
           get_threads_by_context s now days = Inr r \<and> tbc_period_days r = days \<and>
           tbc_data r =
             named @
             (if 0 < length (filter (\<lambda>t. company_context_id t = None \<or> company_context_id t = Some 0)
                               (get_threads_in_period s start_date now))
              then [\<lparr>bucket_name = no_context_label,
                     bucket_count =
                       int (length (filter (\<lambda>t. company_context_id t = None \<or>
                                                  company_context_id t = Some 0)
                                      (get_threads_in_period s start_date now)))\<rparr>]
              else []) \<and>
           distinct (map bucket_name named) \<and>
           set (map bucket_name named) =
             {n. \<exists>t\<in>set (get_threads_in_period s start_date now). resolved_name s t = Some n} \<and>
           (\<forall>b\<in>set named.
              bucket_count b =
                int (length (filter (\<lambda>t. resolved_name s t = Some (bucket_name b))
                               (get_threads_in_period s start_date now))))"
proof -
  let ?ts = "get_threads_in_period s start_date now"
  let ?bc = "count_keys (resolved_name s) ?ts []"
  let ?n = "length (filter (\<lambda>t. company_context_id t = None \<or> company_context_id t = Some 0) ?ts)"
  let ?mk = "\<lambda>(n, c). \<lparr>bucket_name = n, bucket_count = c\<rparr>"
  let ?named = "map ?mk ?bc"
  let ?tail = "if 0 < ?n then [\<lparr>bucket_name = no_context_label, bucket_count = int ?n\<rparr>] else []"
  let ?r = "\<lparr>tbc_data = ?named @ ?tail, tbc_period_days = days\<rparr>"
  have names: "map bucket_name ?named = map fst ?bc"
    by (simp add: case_prod_unfold comp_def)
  have res: "get_threads_by_context s now days = Inr ?r"
    using assms by (simp add: get_threads_by_context_def fold_count_thread Let_def)
  have dist: "distinct (map bucket_name ?named)"
    unfolding names by (rule distinct_count_keys) simp
  have keys: "set (map bucket_name ?named) = {n. \<exists>t\<in>set ?ts. resolved_name s t = Some n}"
    unfolding names using keys_count_keys [of "resolved_name s" ?ts "[]"] by simp
  have cnt: "bucket_count b = int (length (filter (\<lambda>t. resolved_name s t = Some (bucket_name b)) ?ts))"
    if "b \<in> set ?named" for b
  proof -
    from that obtain n c where nc: "(n, c) \<in> set ?bc" "b = \<lparr>bucket_name = n, bucket_count = c\<rparr>"
      by auto
    have "distinct (map fst ?bc)"
      by (rule distinct_count_keys) simp
    with nc(1) have "map_of ?bc n = Some c" by simp
    then have "c = int (length (filter (\<lambda>t. resolved_name s t = Some n) ?ts))"
      by (simp add: map_of_count_keys split: if_splits)
    with nc(2) show ?thesis by simp
  qed
  have sel: "tbc_data ?r = ?named @ ?tail" "tbc_period_days ?r = days"
    by simp_all
  show ?thesis
    apply (rule exI [where x = ?r])
    apply (rule exI [where x = ?named])
    unfolding sel
    using res dist keys cnt by blast
qed

text \<open>
  Witness: in the example storage thread 1 resolves to the context \<open>Bank\<close> and thread 2
  has no context.
\<close>

theorem threads_by_context_buckets_witness:
  "period_start demo_now 30 = Inr 63926712000000000 \<and>
   (\<exists>r. get_threads_by_context demo_storage demo_now 30 = Inr r \<and>
        map bucket_name (tbc_data r) = [ascii ''Bank'', no_context_label] \<and>
        map bucket_count (tbc_data r) = [1, 1])"
proof -
  from threads_by_context_buckets [OF demo_period30, of demo_storage]
  obtain r where r: "get_threads_by_context demo_storage demo_now 30 = Inr r"
    by blast
  have "get_threads_by_context demo_storage demo_now 30 =
     Inr \<lparr>tbc_data = [\<lparr>bucket_name = ascii ''Bank'', bucket_count = 1\<rparr>,
                      \<lparr>bucket_name = no_context_label, bucket_count = 1\<rparr>],
          tbc_period_days = 30\<rparr>"
    apply (simp add: demo_period30 demo_threads30 get_threads_by_context_def Let_def)
    apply (simp add: count_thread_def dict_incr_def get_context_def demo_defs)
    done
  with r show ?thesis
    using demo_period30 by auto
qed

text \<open>
  Counterexample to C2 as stated: thread 3 of the example storage is in the period and
  its context id 5 does not resolve, so two of the three threads have no context that
  resolves; the catch-all bucket counts one.
\<close>

theorem threads_by_context_dangling_counterexample:
  "company_context_id demo_thread3 = Some 5 \<and> get_context demo_storage 5 = None \<and>
   get_threads_in_period demo_storage 63926712000000000 demo_now =
     [demo_thread1, demo_thread2, demo_thread3] \<and>
   length (filter (\<lambda>t. resolved_name demo_storage t = None)
             [demo_thread1, demo_thread2, demo_thread3]) = 2 \<and>
   get_threads_by_context demo_storage demo_now 30 =
     Inr \<lparr>tbc_data = [\<lparr>bucket_name = ascii ''Bank'', bucket_count = 1\<rparr>,
                      \<lparr>bucket_name = no_context_label, bucket_count = 1\<rparr>],
          tbc_period_days = 30\<rparr>"
  apply (simp add: demo_period30 demo_threads30 get_threads_by_context_def Let_def)
  apply (simp add: count_thread_def dict_incr_def get_context_def resolved_name_def demo_defs)
  done

text \<open>
  C5 (threads-growth). For a valid window the route returns a result (the subscript
  \<open>by_date[date_str]\<close> never raises). The dates of its entries ascend strictly in the
  order of the date strings and are exactly the dates of the threads in the period; the
  daily value of an entry is the number of threads of that date, which is positive;
  the cumulative value of every entry is the sum of the daily values up to and including
  it, and the cumulative values ascend.
\<close>

theorem threads_growth_cumulative:
  assumes "period_start now days = Inr start_date"
  shows "\<exists>r. get_threads_growth date_iso s now days = Inr r \<and>
           tg_period_days r = days \<and>
           sorted (map g_date (tg_data r)) \<and> distinct (map g_date (tg_data r)) \<and>
           set (map g_date (tg_data r)) =
             (\<lambda>t. date_iso (thr_created_at t)) ` set (get_threads_in_period s start_date now) \<and>
           (\<forall>e\<in>set (tg_data r).
              0 < daily e \<and>
              daily e = int (length (filter (\<lambda>t. date_iso (thr_created_at t) = g_date e)
                                       (get_threads_in_period s start_date now)))) \<and>
           (\<forall>i<length (tg_data r).
              cumulative (tg_data r ! i) = sum_list (map daily (take (Suc i) (tg_data r)))) \<and>
           sorted (map cumulative (tg_data r))"
proof -
  let ?ts = "get_threads_in_period s start_date now"
  let ?g = "\<lambda>t. Some (date_iso (thr_created_at t))"
  let ?bd = "count_keys ?g ?ts []"
  let ?ds = "sort (map fst ?bd)"
  have look: "map_of ?bd k =
      (if filter (\<lambda>t. date_iso (thr_created_at t) = k) ?ts = [] then None
       else Some (int (length (filter (\<lambda>t. date_iso (thr_created_at t) = k) ?ts))))" for k
    using map_of_count_keys [of ?g ?ts "[]" k] by simp
  have keys: "fst ` set ?bd = (\<lambda>t. date_iso (thr_created_at t)) ` set ?ts"
    using keys_count_keys [of ?g ?ts "[]"] by auto
  have dist: "distinct (map fst ?bd)"
    by (rule distinct_count_keys) simp
  have pos: "\<exists>c. map_of ?bd d = Some c \<and> 0 \<le> c" if "d \<in> set ?ds" for d
  proof -
    from that keys have "d \<in> (\<lambda>t. date_iso (thr_created_at t)) ` set ?ts" by simp
    then have "filter (\<lambda>t. date_iso (thr_created_at t) = d) ?ts \<noteq> []"
      by (auto simp: filter_empty_conv)
    then show ?thesis by (simp add: look)
  qed
  from growth_loop_result [of ?ds ?bd "[]" 0, OF pos running_totals_Nil]
  obtain ys where ys: "growth_loop ?bd ?ds 0 [] = Inr ys" "map g_date ys = ?ds"
      "\<forall>e\<in>set ys. map_of ?bd (g_date e) = Some (daily e)"
      "running_totals ys (sum_list (map daily ys))"
    by auto
  have res: "get_threads_growth date_iso s now days = Inr \<lparr>tg_data = ys, tg_period_days = days\<rparr>"
    using assms ys(1) by (simp add: get_threads_growth_def fold_count_date Let_def)
  have s1: "sorted (map g_date ys)" using ys(2) by simp
  have s2: "distinct (map g_date ys)" using ys(2) dist by simp
  have s3: "set (map g_date ys) = (\<lambda>t. date_iso (thr_created_at t)) ` set ?ts"
    using ys(2) keys by simp
  have s4: "0 < daily e \<and> daily e = int (length (filter (\<lambda>t. date_iso (thr_created_at t) = g_date e) ?ts))"
    if "e \<in> set ys" for e
  proof -
    from that ys(3) have "map_of ?bd (g_date e) = Some (daily e)" by blast
    then have ne: "filter (\<lambda>t. date_iso (thr_created_at t) = g_date e) ?ts \<noteq> []"
      and eq: "daily e = int (length (filter (\<lambda>t. date_iso (thr_created_at t) = g_date e) ?ts))"
      by (auto simp: look split: if_splits)
    from ne have "0 < length (filter (\<lambda>t. date_iso (thr_created_at t) = g_date e) ?ts)"
      by blast
    with eq show ?thesis by simp
  qed
  from ys(4) have s5: "\<forall>i<length ys. cumulative (ys ! i) = sum_list (map daily (take (Suc i) ys))"
    and s6: "sorted (map cumulative ys)"
    by (auto simp: running_totals_def)
  let ?r = "\<lparr>tg_data = ys, tg_period_days = days\<rparr>"
  have sel: "tg_data ?r = ys" "tg_period_days ?r = days"
    by simp_all
  show ?thesis
    apply (rule exI [where x = ?r])
    unfolding sel
    using res s1 s2 s3 s4 s5 s6 by blast
qed

text \<open>
  Witness: the example storage has one thread on the first day and two on the next.
\<close>

theorem threads_growth_cumulative_witness:
  "period_start demo_now 30 = Inr 63926712000000000 \<and>
   get_threads_growth day_key demo_storage demo_now 30 =
     Inr \<lparr>tg_data = [\<lparr>g_date = [739920], daily = 1, cumulative = 1\<rparr>,
                     \<lparr>g_date = [739921], daily = 2, cumulative = 3\<rparr>],
          tg_period_days = 30\<rparr>"
proof -
  from threads_growth_cumulative [OF demo_period30, of day_key demo_storage]
  obtain r where "get_threads_growth day_key demo_storage demo_now 30 = Inr r"
    by blast
  moreover have "get_threads_growth day_key demo_storage demo_now 30 =
     Inr \<lparr>tg_data = [\<lparr>g_date = [739920], daily = 1, cumulative = 1\<rparr>,
                     \<lparr>g_date = [739921], daily = 2, cumulative = 3\<rparr>],
          tg_period_days = 30\<rparr>"
    apply (simp add: demo_period30 demo_threads30 get_threads_growth_def Let_def)
    apply (simp add: count_date_def dict_incr_def day_key_def demo_defs)
    done
  ultimately show ?thesis
    using demo_period30 by simp
qed

text \<open>
  C4 (top-threads), as amended. For a valid window and a limit that is not negative the
  result has at most \<open>limit\<close> rows; for a negative limit the slice drops the last
  \<open>-limit\<close> rows of the sorted list instead. In both cases the rows descend in
  \<open>message_count\<close>, the rows with the same count are the first of the rows with that
  count in the order in which the threads were met, and the result is the front of a
  descending arrangement of all rows. The \<open>message_count\<close> of a row is the length of
  \<open>get_thread_messages\<close> for the thread's id.
\<close>

theorem top_threads_sorted:
  assumes "period_start now days = Inr start_date"
  shows "\<exists>r. get_top_threads isoformat s now limit days = Inr r \<and>
           top_limit r = limit \<and> top_period_days r = days \<and>
           (0 \<le> limit \<longrightarrow> int (length (top_data r)) \<le> limit) \<and>
           (limit < 0 \<longrightarrow>
              length (top_data r) =
                length (get_threads_in_period s start_date now) - nat (- limit)) \<and>
           sorted (rev (map message_count (top_data r))) \<and>
           (\<forall>k. prefix (filter (\<lambda>x. message_count x = k) (top_data r))
                  (filter (\<lambda>x. message_count x = k)
                     (map (thread_row isoformat s) (get_threads_in_period s start_date now)))) \<and>
           (\<exists>rest. mset (top_data r @ rest) =
                     mset (map (thread_row isoformat s) (get_threads_in_period s start_date now)) \<and>
                   sorted (rev (map message_count (top_data r @ rest))))"
proof -
  let ?rows = "map (thread_row isoformat s) (get_threads_in_period s start_date now)"
  let ?srt = "sorted_reverse message_count ?rows"
  let ?r = "\<lparr>top_data = slice_to limit ?srt, top_limit = limit, top_period_days = days\<rparr>"
  have res: "get_top_threads isoformat s now limit days = Inr ?r"
    using assms by (simp add: get_top_threads_def Let_def)
  obtain m where m: "slice_to limit ?srt = take m ?srt"
    using slice_to_take by blast
  have len: "length ?srt = length (get_threads_in_period s start_date now)"
    using mset_sorted_reverse [of message_count ?rows]
    by (metis length_map size_mset)
  have a: "0 \<le> limit \<longrightarrow> int (length (slice_to limit ?srt)) \<le> limit"
    by (simp add: length_slice_to_nonneg)
  have b: "limit < 0 \<longrightarrow> length (slice_to limit ?srt) =
      length (get_threads_in_period s start_date now) - nat (- limit)"
    using length_slice_to_neg [of limit ?srt] len by simp
  have all: "sorted (rev (map message_count ?srt))"
    by (rule sorted_reverse_desc)
  have "sorted (rev (map message_count (take m ?srt)))"
  proof -
    have "rev (map message_count (take m ?srt)) =
        drop (length ?srt - m) (rev (map message_count ?srt))"
      by (simp add: take_map [symmetric] rev_take)
    with all show ?thesis by (simp add: sorted_wrt_drop)
  qed
  then have c: "sorted (rev (map message_count (slice_to limit ?srt)))"
    by (simp add: m)
  have d: "prefix (filter (\<lambda>x. message_count x = k) (slice_to limit ?srt))
      (filter (\<lambda>x. message_count x = k) ?rows)" for k
  proof -
    have "prefix (filter (\<lambda>x. message_count x = k) (take m ?srt))
        (filter (\<lambda>x. message_count x = k) ?srt)"
      by (rule filter_mono_prefix) (rule take_is_prefix)
    then show ?thesis
      by (simp add: m sorted_reverse_stable)
  qed
  have e: "mset (slice_to limit ?srt @ drop m ?srt) = mset ?rows \<and>
      sorted (rev (map message_count (slice_to limit ?srt @ drop m ?srt)))"
    unfolding m append_take_drop_id using all by (simp add: mset_sorted_reverse)
  have sel: "top_data ?r = slice_to limit ?srt" "top_limit ?r = limit" "top_period_days ?r = days"
    by simp_all
  show ?thesis
    apply (rule exI [where x = ?r])
    unfolding sel
    using res a b c d e by blast
qed

text \<open>
  Witness: with limit 2 the example storage gives thread 2 (two messages) and thread 1
  (one message).
\<close>

theorem top_threads_sorted_witness:
  "period_start demo_now 30 = Inr 63926712000000000 \<and>
   (\<exists>r. get_top_threads day_key demo_storage demo_now 2 30 = Inr r \<and>
        map row_id (top_data r) = [2, 1] \<and> map message_count (top_data r) = [2, 1])"
proof -
  from top_threads_sorted [OF demo_period30, of day_key demo_storage 2]
  obtain r where r: "get_top_threads day_key demo_storage demo_now 2 30 = Inr r"
    by blast
  have "get_top_threads day_key demo_storage demo_now 2 30 =
     Inr \<lparr>top_data = [thread_row day_key demo_storage demo_thread2,
                      thread_row day_key demo_storage demo_thread1],
          top_limit = 2, top_period_days = 30\<rparr>"
    apply (simp add: demo_period30 demo_threads30 get_top_threads_def Let_def)
    apply (simp add: sorted_reverse_def slice_to_def thread_row_def get_thread_messages_def
        demo_defs)
    done
  moreover have "row_id (thread_row day_key demo_storage demo_thread2) = 2"
    "row_id (thread_row day_key demo_storage demo_thread1) = 1"
    "message_count (thread_row day_key demo_storage demo_thread2) = 2"
    "message_count (thread_row day_key demo_storage demo_thread1) = 1"
    by (simp_all add: thread_row_def get_thread_messages_def demo_defs)
  ultimately show ?thesis
    using r demo_period30 by auto
qed

text \<open>
  Counterexample to C4 as stated: with limit \<open>-1\<close> the three rows of the example
  storage lose the last one, and two rows are more than the limit.
\<close>

theorem top_threads_negative_limit_counterexample:
  "get_top_threads day_key demo_storage demo_now (- 1) 30 =
     Inr \<lparr>top_data = [thread_row day_key demo_storage demo_thread2,
                      thread_row day_key demo_storage demo_thread1],
          top_limit = - 1, top_period_days = 30\<rparr> \<and>
   \<not> int (length [thread_row day_key demo_storage demo_thread2,
                   thread_row day_key demo_storage demo_thread1]) \<le> - 1"
  apply (simp add: demo_period30 demo_threads30 get_top_threads_def Let_def)
  apply (simp add: sorted_reverse_def slice_to_def thread_row_def get_thread_messages_def
      demo_defs)
  done

section \<open>Claims about the response cache\<close>

text \<open>
  C3 (\<open>set\<close> followed by \<open>get\<close>), as amended. While the cache is disabled \<open>get\<close>
  returns \<open>None\<close> and \<open>set\<close> returns \<open>False\<close>, whatever the arguments, and neither
  changes the cache. While it is enabled, \<open>set\<close> at time \<open>t0\<close> returns \<open>True\<close> exactly
  when the key can be derived, \<open>t0 + timedelta(hours=ttl_hours)\<close> is a date and the
  \<open>SET\<close> line is printed; otherwise it returns \<open>False\<close>, or raises when the error line
  cannot be printed either. It stores the entry under the derived key exactly when the
  key can be derived and the expiry is a date, and then also when it does not return
  \<open>True\<close>; otherwise it stores nothing. After a \<open>set\<close> that returned \<open>True\<close>, a \<open>get\<close>
  with the same namespace and arguments at time \<open>t1\<close> whose log line is printed returns
  the value when \<open>t1\<close> is before the expiry and \<open>None\<close> from the expiry on; when its log
  line cannot be printed it returns \<open>None\<close>, or raises when the error line cannot be
  printed either.
\<close>

theorem cache_set_get:
  "(\<not> enabled c \<longrightarrow>
      cache_get key_hash t1 log1 err1 c namespace args = (Returns None, c) \<and>
      cache_set key_hash t0 log0 err0 c namespace v ttl_hours args = (Returns False, c)) \<and>
   (enabled c \<longrightarrow>
      (fst (cache_set key_hash t0 log0 err0 c namespace v ttl_hours args) = Returns True) =
        (key_hash args \<noteq> None \<and> \<bar>(ttl_hours * 3600000000) div 86400000000\<bar> \<le> 999999999 \<and>
         0 \<le> t0 + ttl_hours * 3600000000 \<and> t0 + ttl_hours * 3600000000 \<le> datetime_max \<and>
         log0)) \<and>
   (enabled c \<and>
    fst (cache_set key_hash t0 log0 err0 c namespace v ttl_hours args) \<noteq> Returns True \<longrightarrow>
      fst (cache_set key_hash t0 log0 err0 c namespace v ttl_hours args) =
        (if err0 then Returns False else Raises)) \<and>
   snd (cache_set key_hash t0 log0 err0 c namespace v ttl_hours args) =
     (case key_hash args of
        None \<Rightarrow> c
      | Some h \<Rightarrow>
          if enabled c \<and> \<bar>(ttl_hours * 3600000000) div 86400000000\<bar> \<le> 999999999 \<and>
             0 \<le> t0 + ttl_hours * 3600000000 \<and>
             t0 + ttl_hours * 3600000000 \<le> datetime_max
          then c\<lparr>cache :=
                   AList.update (ascii ''bizmail:'' @ namespace @ ascii '':'' @ h)
                     (v, t0 + ttl_hours * 3600000000) (cache c)\<rparr>
          else c) \<and>
   (enabled c \<and>
    fst (cache_set key_hash t0 log0 err0 c namespace v ttl_hours args) = Returns True \<longrightarrow>
      fst (cache_get key_hash t1 log1 err1
             (snd (cache_set key_hash t0 log0 err0 c namespace v ttl_hours args))
             namespace args) =
        (if log1 then Returns (if t1 < t0 + ttl_hours * 3600000000 then Some v else None)
         else if err1 then Returns None else Raises))"
proof (intro conjI impI)
  assume "\<not> enabled c"
  then show "cache_get key_hash t1 log1 err1 c namespace args = (Returns None, c)"
    by (simp add: cache_disabled)
next
  assume "\<not> enabled c"
  then show "cache_set key_hash t0 log0 err0 c namespace v ttl_hours args = (Returns False, c)"
    by (simp add: cache_disabled)
next
  assume "enabled c"
  then show "(fst (cache_set key_hash t0 log0 err0 c namespace v ttl_hours args) = Returns True) =
        (key_hash args \<noteq> None \<and> \<bar>(ttl_hours * 3600000000) div 86400000000\<bar> \<le> 999999999 \<and>
         0 \<le> t0 + ttl_hours * 3600000000 \<and> t0 + ttl_hours * 3600000000 \<le> datetime_max \<and>
         log0)"
    by (rule cache_set_True_iff)
next
  assume "enabled c \<and>
    fst (cache_set key_hash t0 log0 err0 c namespace v ttl_hours args) \<noteq> Returns True"
  then show "fst (cache_set key_hash t0 log0 err0 c namespace v ttl_hours args) =
        (if err0 then Returns False else Raises)"
    using cache_set_never_True_wrongly [of key_hash t0 log0 err0 c namespace v ttl_hours args]
    by (simp add: except_handler_def)
next
  show "snd (cache_set key_hash t0 log0 err0 c namespace v ttl_hours args) =
     (case key_hash args of
        None \<Rightarrow> c
      | Some h \<Rightarrow>
          if enabled c \<and> \<bar>(ttl_hours * 3600000000) div 86400000000\<bar> \<le> 999999999 \<and>
             0 \<le> t0 + ttl_hours * 3600000000 \<and>
             t0 + ttl_hours * 3600000000 \<le> datetime_max
          then c\<lparr>cache :=
                   AList.update (ascii ''bizmail:'' @ namespace @ ascii '':'' @ h)
                     (v, t0 + ttl_hours * 3600000000) (cache c)\<rparr>
          else c)"
    by (rule cache_set_store)
next
  assume "enabled c \<and>
    fst (cache_set key_hash t0 log0 err0 c namespace v ttl_hours args) = Returns True"
  then show "fst (cache_get key_hash t1 log1 err1
             (snd (cache_set key_hash t0 log0 err0 c namespace v ttl_hours args))
             namespace args) =
        (if log1 then Returns (if t1 < t0 + ttl_hours * 3600000000 then Some v else None)
         else if err1 then Returns None else Raises)"
    by (simp add: cache_set_then_get except_handler_def)
qed

text \<open>
  Witness: in the enabled example cache, with every line printed, a value set for 24
  hours is stored, is returned an hour later and is gone after 24 hours; when the
  \<open>SET\<close> line cannot be printed the same \<open>set\<close> returns \<open>False\<close> and has stored the
  entry all the same.
\<close>

theorem cache_set_get_witness:
  "enabled demo_cache \<and>
   fst (cache_set Some demo_now True True demo_cache (ascii ''analysis'') (ascii ''result'') 24
          (ascii ''args'')) = Returns True \<and>
   fst (cache_get Some (demo_now + 3600000000) True True
          (snd (cache_set Some demo_now True True demo_cache (ascii ''analysis'')
                  (ascii ''result'') 24 (ascii ''args'')))
          (ascii ''analysis'') (ascii ''args'')) = Returns (Some (ascii ''result'')) \<and>
   fst (cache_get Some (demo_now + 24 * 3600000000) True True
          (snd (cache_set Some demo_now True True demo_cache (ascii ''analysis'')
                  (ascii ''result'') 24 (ascii ''args'')))
          (ascii ''analysis'') (ascii ''args'')) = Returns None \<and>
   cache_set Some demo_now False True demo_cache (ascii ''analysis'') (ascii ''result'') 24
     (ascii ''args'') =
     (Returns False,
      demo_cache\<lparr>cache :=
        [(ascii ''bizmail:analysis:args'', (ascii ''result'', demo_now + 24 * 3600000000))]\<rparr>)"
proof -
  have en: "enabled demo_cache"
    by (simp add: demo_cache_def)
  have ok: "fst (cache_set Some demo_now True True demo_cache (ascii ''analysis'')
      (ascii ''result'') 24 (ascii ''args'')) = Returns True"
    using cache_set_get [of demo_cache Some demo_now True True "ascii ''analysis''"
        "ascii ''args''" demo_now True True "ascii ''result''" 24,
        THEN conjunct2, THEN conjunct1] en
    by (simp add: demo_now_def datetime_max_def)
  have g1: "fst (cache_get Some (demo_now + 3600000000) True True
          (snd (cache_set Some demo_now True True demo_cache (ascii ''analysis'')
                  (ascii ''result'') 24 (ascii ''args'')))
          (ascii ''analysis'') (ascii ''args'')) = Returns (Some (ascii ''result''))"
    using en ok
      cache_set_get [of demo_cache Some "demo_now + 3600000000" True True "ascii ''analysis''"
        "ascii ''args''" demo_now True True "ascii ''result''" 24,
        THEN conjunct2, THEN conjunct2, THEN conjunct2, THEN conjunct2]
    by simp
  have g2: "fst (cache_get Some (demo_now + 24 * 3600000000) True True
          (snd (cache_set Some demo_now True True demo_cache (ascii ''analysis'')
                  (ascii ''result'') 24 (ascii ''args'')))
          (ascii ''analysis'') (ascii ''args'')) = Returns None"
    using en ok
      cache_set_get [of demo_cache Some "demo_now + 24 * 3600000000" True True
        "ascii ''analysis''" "ascii ''args''" demo_now True True "ascii ''result''" 24,
        THEN conjunct2, THEN conjunct2, THEN conjunct2, THEN conjunct2]
    by simp
  have s2: "cache_set Some demo_now False True demo_cache (ascii ''analysis'')
      (ascii ''result'') 24 (ascii ''args'') =
     (Returns False,
      demo_cache\<lparr>cache :=
        [(ascii ''bizmail:analysis:args'', (ascii ''result'', demo_now + 24 * 3600000000))]\<rparr>)"
    by (simp add: cache_set_def generate_key_def timedelta_hours_def datetime_add_def
        datetime_max_def except_handler_def demo_cache_def demo_now_def ascii_def)
  from en ok g1 g2 s2 show ?thesis by simp
qed

text \<open>
  Counterexample to C3 as stated: with a time to live of 100000000 hours the expiry is
  after \<open>datetime.max\<close>, the addition raises, and with every line printed \<open>set\<close>
  returns \<open>False\<close>, stores nothing, and the \<open>get\<close> that follows returns \<open>None\<close>,
  although the time to live has not elapsed.
\<close>

theorem cache_set_overflow_counterexample:
  "enabled demo_cache \<and>
   cache_set Some demo_now True True demo_cache (ascii ''analysis'') (ascii ''result'')
     100000000 (ascii ''args'') = (Returns False, demo_cache) \<and>
   fst (cache_get Some demo_now True True
         (snd (cache_set Some demo_now True True demo_cache (ascii ''analysis'')
                 (ascii ''result'') 100000000 (ascii ''args'')))
         (ascii ''analysis'') (ascii ''args'')) = Returns None \<and>
   demo_now < demo_now + 100000000 * 3600000000"
  by (simp add: cache_set_def cache_get_def generate_key_def timedelta_hours_def
      datetime_add_def datetime_max_def except_handler_def demo_cache_def demo_now_def)

end
